theory Spec2Isabelle
  imports Complex_Main
begin

section \<open>The relational store\<close>

text \<open>
  The post router (\<open>postRouter\<close>, the third document of \<open>components/nav/Side.tsx\<close>) works
  on the tables Post, Favorite, Attachment, File and Profile through the Prisma client.
  The schema file is not part of the sources, so every row carries exactly the columns
  the router reads or writes. Identifiers are strings, an optional column is an
  \<open>option\<close>, and a table is the list of its rows in insertion order.
\<close>

record post_row =
  p_id :: string
  p_profileId :: string
  p_content :: "string option"
  p_inReplyToId :: "string option"
  p_reblogId :: "string option"
  p_repliesCount :: int
  p_reblogsCount :: int
  p_createdAt :: int

record favorite =
  fav_profileId :: string
  fav_postId :: string

record attachment =
  att_id :: string
  att_postId :: string
  att_fileId :: string

record file_row =
  f_id :: string
  f_type :: string
  f_url :: string
  f_mime :: string
  f_extension :: string
  f_name :: string
  f_size :: nat
  f_width :: nat
  f_height :: nat

record profile =
  pr_id :: string
  pr_userId :: string

record db =
  posts :: "post_row list"
  favorites :: "favorite list"
  attachments :: "attachment list"
  files :: "file_row list"
  profiles :: "profile list"

section \<open>Hydrated posts\<close>

text \<open>
  \<open>basePostInclude\<close> loads a post row with its profile and its attachments, each with
  its file; \<open>postInclude\<close> adds the reblog target, loaded with \<open>basePostInclude\<close> only
  (so the target carries no nested target of its own).
\<close>

record hydrated =
  h_row :: post_row
  h_profile :: "profile option"
  h_attachments :: "(attachment \<times> file_row option) list"

record post =
  post_base :: hydrated
  post_reblog :: "hydrated option"

definition include_base :: "db \<Rightarrow> post_row \<Rightarrow> hydrated" where
  "include_base d p =
     \<lparr>h_row = p,
      h_profile = find (\<lambda>r. pr_id r = p_profileId p) (profiles d),
      h_attachments =
        map (\<lambda>a. (a, find (\<lambda>f. f_id f = att_fileId a) (files d)))
          (filter (\<lambda>a. att_postId a = p_id p) (attachments d))\<rparr>"

definition include_post :: "db \<Rightarrow> post_row \<Rightarrow> post" where
  "include_post d p =
     \<lparr>post_base = include_base d p,
      post_reblog =
        (case p_reblogId p of
           None \<Rightarrow> None
         | Some r \<Rightarrow> map_option (include_base d) (find (\<lambda>q. p_id q = r) (posts d)))\<rparr>"

section \<open>The annotation pipeline\<close>

text \<open>
  \<open>WithInteractions<T>\<close>: the fields of the post, the two flags and the nested
  annotation, which is \<open>null\<close> or again an annotated post.
\<close>

datatype with_interactions =
  WithInteractions
    (isReblogged: bool)
    (isFavorited: bool)
    (wi_post: hydrated)
    (reblog: "with_interactions option")

text \<open>
  The two bulk lookups of \<open>computeInteractions\<close>. The viewer is the optional parameter
  \<open>profileId?: string\<close>; Prisma leaves a \<open>where\<close> field whose value is \<open>undefined\<close> out
  of the condition, so without a viewer neither query restricts the profile.
\<close>

definition where_profileId :: "string option \<Rightarrow> string \<Rightarrow> bool" where
  "where_profileId profileId v = (case profileId of None \<Rightarrow> True | Some w \<Rightarrow> v = w)"

definition findMany_reblogs :: "db \<Rightarrow> string option \<Rightarrow> post_row list" where
  "findMany_reblogs d profileId =
     filter (\<lambda>p. where_profileId profileId (p_profileId p) \<and> p_content p = None
                 \<and> \<not> (p_reblogId p = None)) (posts d)"

definition findMany_favorites :: "db \<Rightarrow> string option \<Rightarrow> favorite list" where
  "findMany_favorites d profileId =
     filter (\<lambda>f. where_profileId profileId (fav_profileId f)) (favorites d)"

definition array_includes :: "'a list \<Rightarrow> 'a \<Rightarrow> bool" where
  "array_includes xs x = (x \<in> set xs)"

definition annotate :: "string option list \<Rightarrow> string list \<Rightarrow> post \<Rightarrow> with_interactions" where
  "annotate reblogIds favoriteIds p =
     (let reblog =
            (case post_reblog p of
               None \<Rightarrow> None
             | Some t \<Rightarrow>
                 Some (WithInteractions
                         (array_includes reblogIds (Some (p_id (h_row t))))
                         (array_includes favoriteIds (p_id (h_row t)))
                         t None))
      in WithInteractions
           (array_includes reblogIds (Some (p_id (h_row (post_base p)))))
           (array_includes favoriteIds (p_id (h_row (post_base p))))
           (post_base p) reblog)"

definition computeInteractions :: "db \<Rightarrow> post list \<Rightarrow> string option \<Rightarrow> with_interactions list" where
  "computeInteractions d ps profileId =
     (let reblogs = findMany_reblogs d profileId;
          favs = findMany_favorites d profileId;
          reblogIds = map p_reblogId reblogs;
          favoriteIds = map fav_postId favs
      in map (annotate reblogIds favoriteIds) ps)"

text \<open>
  The sets of the specification: \<open>R\<close>, the reblog targets of the viewer's posts that
  have no content, and \<open>F\<close>, the posts of the viewer's Favorite rows.
\<close>

definition viewer_R :: "db \<Rightarrow> string \<Rightarrow> string set" where
  "viewer_R d v =
     {r. \<exists>q \<in> set (posts d). p_profileId q = v \<and> p_content q = None \<and> p_reblogId q = Some r}"

definition viewer_F :: "db \<Rightarrow> string \<Rightarrow> string set" where
  "viewer_F d v = {t. \<exists>f \<in> set (favorites d). fav_profileId f = v \<and> fav_postId f = t}"

text \<open>
  The same sets without the restriction to a viewer: the reblog targets of all posts
  without content, and the posts of all Favorite rows.
\<close>

definition all_R :: "db \<Rightarrow> string set" where
  "all_R d = {r. \<exists>q \<in> set (posts d). p_content q = None \<and> p_reblogId q = Some r}"

definition all_F :: "db \<Rightarrow> string set" where
  "all_F d = {t. \<exists>f \<in> set (favorites d). fav_postId f = t}"

section \<open>Reading posts of a profile\<close>

text \<open>
  \<open>getByProfileId\<close>: the optional \<open>filter\<close> of the input is \<open>"with-replies"\<close> or
  \<open>"media"\<close>. The local \<open>filter\<close> object of the handler has two optional conditions,
  \<open>inReplyToId: null\<close> and \<open>attachments: { some: {} }\<close>; each branch replaces the
  whole object.
\<close>

datatype filter_literal = With_replies | Media

record getByProfileId_input =
  gi_filter :: "filter_literal option"
  gi_profileId :: string

record where_filter =
  w_inReplyToId_null :: bool
  w_attachments_some :: bool

definition profile_filter :: "filter_literal option \<Rightarrow> where_filter" where
  "profile_filter f =
     (let filter0 = \<lparr>w_inReplyToId_null = True, w_attachments_some = False\<rparr>;
          filter1 = (if f = Some With_replies
                     then \<lparr>w_inReplyToId_null = False, w_attachments_some = False\<rparr>
                     else filter0);
          filter2 = (if f = Some Media
                     then \<lparr>w_inReplyToId_null = False, w_attachments_some = True\<rparr>
                     else filter1)
      in filter2)"

definition where_matches :: "db \<Rightarrow> where_filter \<Rightarrow> string \<Rightarrow> post_row \<Rightarrow> bool" where
  "where_matches d w pid p =
     ((w_inReplyToId_null w \<longrightarrow> p_inReplyToId p = None) \<and>
      (w_attachments_some w \<longrightarrow> list_ex (\<lambda>a. att_postId a = p_id p) (attachments d)) \<and>
      p_profileId p = pid)"

text \<open>
  \<open>orderBy: [{ createdAt: "desc" }]\<close>: the rows by descending creation time. The store
  does not fix the order of rows with the same time; the model keeps them in table order.
\<close>

definition orderBy_createdAt_desc :: "post_row list \<Rightarrow> post_row list" where
  "orderBy_createdAt_desc rows = sort_key (\<lambda>p. - p_createdAt p) rows"

definition findMany_profile_posts :: "db \<Rightarrow> where_filter \<Rightarrow> string \<Rightarrow> post list" where
  "findMany_profile_posts d w pid =
     map (include_post d) (orderBy_createdAt_desc (filter (where_matches d w pid) (posts d)))"

definition getByProfileId :: "db \<Rightarrow> getByProfileId_input \<Rightarrow> with_interactions list" where
  "getByProfileId d inp =
     (let posts = findMany_profile_posts d (profile_filter (gi_filter inp)) (gi_profileId inp)
      in computeInteractions d posts (Some (gi_profileId inp)))"

section \<open>The environment of a request\<close>

text \<open>
  Failures are values. \<open>ZodError\<close> is the rejection of an input by its schema, before
  the handler runs; \<open>FORBIDDEN\<close> and \<open>BAD_REQUEST\<close> are the two errors the handler of
  \<open>create\<close> throws itself; the others are thrown by the calls it makes: Prisma
  (\<open>RecordNotFound\<close> from \<open>update\<close> and \<open>findUniqueOrThrow\<close>, \<open>UniqueConstraint\<close> from
  \<open>create\<close>), the storage client (\<open>NoSuchKey\<close>) and the image probe.
\<close>

datatype error =
    ZodError
  | FORBIDDEN
  | BAD_REQUEST
  | RecordNotFound
  | UniqueConstraint
  | NoSuchKey
  | ProbeError

text \<open>
  What \<open>probe\<close> answers for a body: it throws, or it returns a value, which the handler
  tests for truthiness (\<open>!fileType\<close>) before reading \<open>type\<close>, \<open>mime\<close>, \<open>width\<close> and
  \<open>height\<close> from it.
\<close>

record probe_result =
  probe_type :: string
  probe_mime :: string
  probe_width :: nat
  probe_height :: nat

datatype probe_outcome = Probe_throws | Probe_returns "probe_result option"

text \<open>
  An object of the bucket as \<open>GetObjectCommand\<close> returns it: \<open>ContentLength\<close> is an
  optional number, \<open>Body\<close> the bytes. The bucket maps keys to objects.
\<close>

record s3object =
  ContentLength :: "nat option"
  Body :: string

type_synonym bucket = "string \<Rightarrow> s3object option"

text \<open>
  The values of \<open>uuidv4()\<close> in call order. A universally unique identifier is never
  handed out twice: the source of a request's values is a sequence without repetition.
\<close>

typedef uuid_source = "{f :: nat \<Rightarrow> string. inj f}"
proof
  have "inj (\<lambda>n. replicate n CHR ''u'')"
    by (rule injI) (metis length_replicate)
  then show "(\<lambda>n. replicate n CHR ''u'') \<in> {f :: nat \<Rightarrow> string. inj f}"
    by simp
qed

text \<open>
  Everything a request takes from outside: the source of \<open>uuidv4()\<close>, the identifiers
  and the creation time the store gives to new rows, the probe, the signer (which
  computes the URL for a key from the configured client, without a call to the
  storage) and the configured web endpoint.
\<close>

record env =
  uuids :: uuid_source
  newPostId :: string
  newFileId :: "nat \<Rightarrow> string"
  newAttachmentId :: "nat \<Rightarrow> string"
  now :: int
  probe :: "string \<Rightarrow> probe_outcome"
  getSignedUrl :: "string \<Rightarrow> string"
  S3_WEB_ENDPOINT :: string

definition uuidv4 :: "env \<Rightarrow> nat \<Rightarrow> string" where
  "uuidv4 e i = Rep_uuid_source (uuids e) i"

text \<open>
  The context of a protected procedure: \<open>create\<close> and \<open>createPresignedUrls\<close> run only
  with a session, of which the handler reads \<open>ctx.session.user.id\<close>.
\<close>

record ctx =
  session_user_id :: string

section \<open>Creating a post\<close>

record upload =
  up_key :: string
  up_ext :: string

record create_input =
  in_profileId :: string
  in_inReplyToId :: "string option"
  in_reblogId :: "string option"
  in_content :: "string option"
  in_files :: "upload list option"

text \<open>JavaScript truthiness of an optional string: present and not empty.\<close>

definition truthy :: "string option \<Rightarrow> bool" where
  "truthy s = (case s of None \<Rightarrow> False | Some t \<Rightarrow> \<not> (t = []))"

text \<open>
  The zod schema of \<open>create\<close>: the object with its optional fields (keys and extensions
  of at least one character, at most four files), then the refinement.
\<close>

definition create_object_schema :: "create_input \<Rightarrow> bool" where
  "create_object_schema i =
     (case in_files i of
        None \<Rightarrow> True
      | Some fs \<Rightarrow> list_all (\<lambda>u. 1 \<le> length (up_key u) \<and> 1 \<le> length (up_ext u)) fs
                   \<and> length fs \<le> 4)"

definition create_refine :: "create_input \<Rightarrow> bool" where
  "create_refine i =
     (truthy (in_inReplyToId i) \<or> truthy (in_reblogId i) \<or> truthy (in_content i) \<or>
      (case in_files i of None \<Rightarrow> False | Some fs \<Rightarrow> 0 < length fs))"

definition create_schema :: "create_input \<Rightarrow> bool" where
  "create_schema i = (create_object_schema i \<and> create_refine i)"

text \<open>The Prisma calls of the transaction, on the transaction's view of the store.\<close>

definition profile_findFirst :: "db \<Rightarrow> string \<Rightarrow> string \<Rightarrow> profile option" where
  "profile_findFirst d pid uid = find (\<lambda>r. pr_id r = pid \<and> pr_userId r = uid) (profiles d)"

definition post_create :: "post_row \<Rightarrow> db \<Rightarrow> error + db" where
  "post_create r d =
     (if list_ex (\<lambda>q. p_id q = p_id r) (posts d) then Inl UniqueConstraint
      else Inr (d\<lparr>posts := posts d @ [r]\<rparr>))"

definition increment_repliesCount :: "string \<Rightarrow> db \<Rightarrow> error + db" where
  "increment_repliesCount i d =
     (if list_ex (\<lambda>q. p_id q = i) (posts d)
      then Inr (d\<lparr>posts := map (\<lambda>q. if p_id q = i
                                       then q\<lparr>p_repliesCount := p_repliesCount q + 1\<rparr>
                                       else q) (posts d)\<rparr>)
      else Inl RecordNotFound)"

definition increment_reblogsCount :: "string \<Rightarrow> db \<Rightarrow> error + db" where
  "increment_reblogsCount i d =
     (if list_ex (\<lambda>q. p_id q = i) (posts d)
      then Inr (d\<lparr>posts := map (\<lambda>q. if p_id q = i
                                       then q\<lparr>p_reblogsCount := p_reblogsCount q + 1\<rparr>
                                       else q) (posts d)\<rparr>)
      else Inl RecordNotFound)"

definition file_create :: "file_row \<Rightarrow> db \<Rightarrow> error + db" where
  "file_create f d =
     (if list_ex (\<lambda>g. f_id g = f_id f) (files d) then Inl UniqueConstraint
      else Inr (d\<lparr>files := files d @ [f]\<rparr>))"

definition attachment_create :: "attachment \<Rightarrow> db \<Rightarrow> error + db" where
  "attachment_create a d =
     (if list_ex (\<lambda>b. att_id b = att_id a) (attachments d) then Inl UniqueConstraint
      else Inr (d\<lparr>attachments := attachments d @ [a]\<rparr>))"

definition post_findUniqueOrThrow :: "db \<Rightarrow> string \<Rightarrow> error + post" where
  "post_findUniqueOrThrow d i =
     (case find (\<lambda>q. p_id q = i) (posts d) of
        None \<Rightarrow> Inl RecordNotFound
      | Some r \<Rightarrow> Inr (include_post d r))"

text \<open>
  The body of the loop \<open>for (const upload of files)\<close>, for the upload number \<open>i\<close>. The
  bucket is outside the transaction: it is returned as it stands when a step throws.
\<close>

definition file_data :: "env \<Rightarrow> nat \<Rightarrow> upload \<Rightarrow> string \<Rightarrow> nat \<Rightarrow> probe_result \<Rightarrow> file_row" where
  "file_data e i u name len fileType =
     \<lparr>f_id = newFileId e i,
      f_type = ''IMAGE'',
      f_url = S3_WEB_ENDPOINT e @ ''/'' @ name,
      f_mime = probe_mime fileType,
      f_extension = up_ext u,
      f_name = name,
      f_size = len,
      f_width = probe_height fileType,
      f_height = probe_width fileType\<rparr>"

definition invalid_file :: "upload \<Rightarrow> s3object \<Rightarrow> probe_result option \<Rightarrow> bool" where
  "invalid_file u object fileType =
     (ContentLength object = None \<or> ContentLength object = Some 0 \<or> fileType = None \<or>
      \<not> (Some (up_ext u) = map_option probe_type fileType))"

definition CopyObject :: "string \<Rightarrow> string \<Rightarrow> bucket \<Rightarrow> error + bucket" where
  "CopyObject source key s3 =
     (case s3 source of None \<Rightarrow> Inl NoSuchKey | Some ob \<Rightarrow> Inr (s3(key \<mapsto> ob)))"

definition DeleteObject :: "string \<Rightarrow> bucket \<Rightarrow> bucket" where
  "DeleteObject key s3 = s3(key := None)"

definition GetObject :: "string \<Rightarrow> bucket \<Rightarrow> error + s3object" where
  "GetObject key s3 = (case s3 key of None \<Rightarrow> Inl NoSuchKey | Some ob \<Rightarrow> Inr ob)"

definition upload_name :: "env \<Rightarrow> nat \<Rightarrow> upload \<Rightarrow> string" where
  "upload_name e i u = uuidv4 e i @ ''.'' @ up_ext u"

definition new_attachment :: "env \<Rightarrow> string \<Rightarrow> nat \<Rightarrow> attachment" where
  "new_attachment e postId i =
     \<lparr>att_id = newAttachmentId e i, att_postId = postId, att_fileId = newFileId e i\<rparr>"

definition promote :: "env \<Rightarrow> string \<Rightarrow> nat \<Rightarrow> upload \<Rightarrow> db \<Rightarrow> bucket \<Rightarrow> bucket \<times> (error + db)" where
  "promote e postId i u d s3 =
     (let name = upload_name e i u in
      (case CopyObject (up_key u) name s3 of
         Inl x \<Rightarrow> (s3, Inl x)
       | Inr s3a \<Rightarrow>
           (let s3b = DeleteObject (up_key u) s3a in
            (case GetObject name s3b of
               Inl x \<Rightarrow> (s3b, Inl x)
             | Inr object \<Rightarrow>
                 (case probe e (Body object) of
                    Probe_throws \<Rightarrow> (s3b, Inl ProbeError)
                  | Probe_returns fileType \<Rightarrow>
                      (if invalid_file u object fileType then (s3b, Inl BAD_REQUEST)
                       else
                         (case file_create
                                 (file_data e i u name (the (ContentLength object))
                                    (the fileType)) d of
                            Inl x \<Rightarrow> (s3b, Inl x)
                          | Inr d1 \<Rightarrow>
                              (case attachment_create (new_attachment e postId i) d1 of
                                 Inl x \<Rightarrow> (s3b, Inl x)
                               | Inr d2 \<Rightarrow> (s3b, Inr d2)))))))))"

fun promote_all :: "env \<Rightarrow> string \<Rightarrow> nat \<Rightarrow> upload list \<Rightarrow> db \<Rightarrow> bucket \<Rightarrow> bucket \<times> (error + db)" where
  "promote_all e postId i [] d s3 = (s3, Inr d)"
| "promote_all e postId i (u # us) d s3 =
     (case promote e postId i u d s3 of
        (s3', Inl x) \<Rightarrow> (s3', Inl x)
      | (s3', Inr d') \<Rightarrow> promote_all e postId (Suc i) us d' s3')"

record created_post =
  c_isReblogged :: bool
  c_isFavorited :: bool
  c_post :: post

text \<open>
  The callback of \<open>ctx.prisma.$transaction\<close>. The permission lookup goes through
  \<open>ctx.prisma\<close>, the client outside the transaction, which sees the store as it was
  when the transaction began; every write goes through \<open>tx\<close>.
\<close>

text \<open>
  Modelled from the spec: the schema, which declares the defaults of the columns that
  \<open>tx.post.create\<close> does not set, is not in the sources. A new post has
  \<open>repliesCount = 0\<close> and \<open>reblogsCount = 0\<close> (the spec's example of a post created with
  content only); its identifier and creation time are given by the store, here by the
  environment. An optional field that the input leaves out is stored as null.
\<close>

definition new_post_row :: "env \<Rightarrow> create_input \<Rightarrow> post_row" where
  "new_post_row e inp =
     \<lparr>p_id = newPostId e,
      p_profileId = in_profileId inp,
      p_content = in_content inp,
      p_inReplyToId = in_inReplyToId inp,
      p_reblogId = in_reblogId inp,
      p_repliesCount = 0,
      p_reblogsCount = 0,
      p_createdAt = now e\<rparr>"

definition create_counters :: "create_input \<Rightarrow> db \<Rightarrow> error + db" where
  "create_counters inp d1 =
     (case (if truthy (in_inReplyToId inp)
            then increment_repliesCount (the (in_inReplyToId inp)) d1 else Inr d1) of
        Inl x \<Rightarrow> Inl x
      | Inr d2 \<Rightarrow>
          (if truthy (in_reblogId inp)
           then increment_reblogsCount (the (in_reblogId inp)) d2 else Inr d2))"

definition create_tx :: "env \<Rightarrow> ctx \<Rightarrow> create_input \<Rightarrow> db \<Rightarrow> bucket \<Rightarrow> bucket \<times> (error + db \<times> created_post)" where
  "create_tx e c inp d s3 =
     (let hasPermission =
            \<not> (profile_findFirst d (in_profileId inp) (session_user_id c) = None)
      in if \<not> hasPermission then (s3, Inl FORBIDDEN)
         else
           case post_create (new_post_row e inp) d of
             Inl x \<Rightarrow> (s3, Inl x)
           | Inr d1 \<Rightarrow>
               (case create_counters inp d1 of
                  Inl x \<Rightarrow> (s3, Inl x)
                | Inr d3 \<Rightarrow>
                    (case (case in_files inp of
                             None \<Rightarrow> (s3, Inr d3)
                           | Some fs \<Rightarrow> promote_all e (newPostId e) 0 fs d3 s3) of
                       (s3', Inl x) \<Rightarrow> (s3', Inl x)
                     | (s3', Inr d4) \<Rightarrow>
                         (case post_findUniqueOrThrow d4 (newPostId e) of
                            Inl x \<Rightarrow> (s3', Inl x)
                          | Inr createdPost \<Rightarrow>
                              (s3', Inr (d4, \<lparr>c_isReblogged = False, c_isFavorited = False,
                                              c_post = createdPost\<rparr>))))))"

text \<open>
  The procedure: the schema first, then the transaction, whose writes reach the store
  only when the callback returns; when it throws, the store is as before.
\<close>

definition create :: "env \<Rightarrow> ctx \<Rightarrow> create_input \<Rightarrow> db \<Rightarrow> bucket \<Rightarrow> (db \<times> bucket) \<times> (error + created_post)" where
  "create e c inp d s3 =
     (if \<not> create_schema inp then ((d, s3), Inl ZodError)
      else
        (case create_tx e c inp d s3 of
           (s3', Inl x) \<Rightarrow> ((d, s3'), Inl x)
         | (s3', Inr (d', r)) \<Rightarrow> ((d', s3'), Inr r)))"

section \<open>Presigned upload URLs\<close>





section \<open>The committed store\<close>

text \<open>
  What a committed \<open>create\<close> leaves, stated on the tables rather than step by step:
  the new Post row is appended; the reply counter of the post named by a truthy
  \<open>inReplyToId\<close> and the reblog counter of the post named by a truthy \<open>reblogId\<close> are
  one higher; there is one new File row and one new Attachment row per upload, in
  input order, the attachment linking the file to the new post; the Favorite and
  Profile tables are as before.
\<close>

definition bump :: "create_input \<Rightarrow> post_row \<Rightarrow> post_row" where
  "bump inp q =
     q\<lparr>p_repliesCount :=
          p_repliesCount q +
            (if truthy (in_inReplyToId inp) \<and> p_id q = the (in_inReplyToId inp) then 1 else 0),
        p_reblogsCount :=
          p_reblogsCount q +
            (if truthy (in_reblogId inp) \<and> p_id q = the (in_reblogId inp) then 1 else 0)\<rparr>"

definition bump_replies :: "create_input \<Rightarrow> post_row \<Rightarrow> post_row" where
  "bump_replies inp q =
     (if truthy (in_inReplyToId inp) \<and> p_id q = the (in_inReplyToId inp)
      then q\<lparr>p_repliesCount := p_repliesCount q + 1\<rparr> else q)"

definition bump_reblogs :: "create_input \<Rightarrow> post_row \<Rightarrow> post_row" where
  "bump_reblogs inp q =
     (if truthy (in_reblogId inp) \<and> p_id q = the (in_reblogId inp)
      then q\<lparr>p_reblogsCount := p_reblogsCount q + 1\<rparr> else q)"

definition upload_count :: "create_input \<Rightarrow> nat" where
  "upload_count inp = (case in_files inp of None \<Rightarrow> 0 | Some fs \<Rightarrow> length fs)"

definition committed :: "env \<Rightarrow> create_input \<Rightarrow> db \<Rightarrow> db \<Rightarrow> bool" where
  "committed e inp d d' =
     (posts d' = map (bump inp) (posts d @ [new_post_row e inp]) \<and>
      map f_id (files d') = map f_id (files d) @ map (newFileId e) [0..<upload_count inp] \<and>
      attachments d' =
        attachments d @ map (new_attachment e (newPostId e)) [0..<upload_count inp] \<and>
      favorites d' = favorites d \<and>
      profiles d' = profiles d)"

text \<open>
  The uploads of an input, and what the storage calls of the loop do to the bucket,
  apart from the store. \<open>fetched\<close> is the object that the re-fetch of one upload
  returns, after the copy and the delete, with the bucket they leave; there is none
  when the staged object or the moved object is missing. \<open>fetched_objects\<close> are the
  objects fetched for the uploads of a list, in order, each from the bucket that the
  moves before it have left.
\<close>

definition uploads :: "create_input \<Rightarrow> upload list" where
  "uploads inp = (case in_files inp of None \<Rightarrow> [] | Some fs \<Rightarrow> fs)"

definition fetched :: "env \<Rightarrow> nat \<Rightarrow> upload \<Rightarrow> bucket \<Rightarrow> (bucket \<times> s3object) option" where
  "fetched e i u s3 =
     (case CopyObject (up_key u) (upload_name e i u) s3 of
        Inl x \<Rightarrow> None
      | Inr s3a \<Rightarrow>
          (let s3b = DeleteObject (up_key u) s3a in
           (case GetObject (upload_name e i u) s3b of
              Inl x \<Rightarrow> None
            | Inr object \<Rightarrow> Some (s3b, object))))"

fun fetched_objects :: "env \<Rightarrow> nat \<Rightarrow> upload list \<Rightarrow> bucket \<Rightarrow> s3object list" where
  "fetched_objects e i [] s3 = []"
| "fetched_objects e i (u # us) s3 =
     (case fetched e i u s3 of
        None \<Rightarrow> []
      | Some (s3b, object) \<Rightarrow> object # fetched_objects e (Suc i) us s3b)"


definition repliesCount_of :: "db \<Rightarrow> string \<Rightarrow> int option" where
  "repliesCount_of d i = map_option p_repliesCount (find (\<lambda>q. p_id q = i) (posts d))"

definition reblogsCount_of :: "db \<Rightarrow> string \<Rightarrow> int option" where
  "reblogsCount_of d i = map_option p_reblogsCount (find (\<lambda>q. p_id q = i) (posts d))"

section \<open>A small store\<close>

text \<open>
  Concrete rows on which the theorems below are exercised: alice wrote \<open>p1\<close>, bob
  reblogged it without content (\<open>p2\<close>) and replied to it (\<open>p3\<close>), carol marked it as
  a favorite, and \<open>p1\<close> has one attached image.
\<close>

definition ex_p1 :: post_row where
  "ex_p1 = \<lparr>p_id = ''p1'', p_profileId = ''alice'', p_content = Some ''hello'',
            p_inReplyToId = None, p_reblogId = None, p_repliesCount = 1,
            p_reblogsCount = 1, p_createdAt = 10\<rparr>"

definition ex_p2 :: post_row where
  "ex_p2 = \<lparr>p_id = ''p2'', p_profileId = ''bob'', p_content = None,
            p_inReplyToId = None, p_reblogId = Some ''p1'', p_repliesCount = 0,
            p_reblogsCount = 0, p_createdAt = 20\<rparr>"

definition ex_p3 :: post_row where
  "ex_p3 = \<lparr>p_id = ''p3'', p_profileId = ''bob'', p_content = Some ''nice'',
            p_inReplyToId = Some ''p1'', p_reblogId = None, p_repliesCount = 0,
            p_reblogsCount = 0, p_createdAt = 30\<rparr>"

definition ex_f1 :: file_row where
  "ex_f1 = \<lparr>f_id = ''f1'', f_type = ''IMAGE'', f_url = ''https://web/n1.png'',
            f_mime = ''image/png'', f_extension = ''png'', f_name = ''n1.png'',
            f_size = 7, f_width = 480, f_height = 640\<rparr>"

definition ex_db :: db where
  "ex_db =
     \<lparr>posts = [ex_p1, ex_p2, ex_p3],
      favorites = [\<lparr>fav_profileId = ''carol'', fav_postId = ''p1''\<rparr>],
      attachments = [\<lparr>att_id = ''a1'', att_postId = ''p1'', att_fileId = ''f1''\<rparr>],
      files = [ex_f1],
      profiles = [\<lparr>pr_id = ''alice'', pr_userId = ''u1''\<rparr>,
                  \<lparr>pr_id = ''bob'', pr_userId = ''u2''\<rparr>,
                  \<lparr>pr_id = ''carol'', pr_userId = ''u3''\<rparr>]\<rparr>"

definition ex_posts :: "post list" where
  "ex_posts = map (include_post ex_db) [ex_p1, ex_p2, ex_p3]"

definition ex_png :: probe_result where
  "ex_png = \<lparr>probe_type = ''png'', probe_mime = ''image/png'',
             probe_width = 640, probe_height = 480\<rparr>"

definition ex_jpg :: probe_result where
  "ex_jpg = \<lparr>probe_type = ''jpg'', probe_mime = ''image/jpeg'',
             probe_width = 800, probe_height = 600\<rparr>"

text \<open>
  The probe recognises two bodies as images and throws on everything else, the empty
  body included.
\<close>

definition ex_probe :: "string \<Rightarrow> probe_outcome" where
  "ex_probe body =
     (if body = ''PNGDATA'' then Probe_returns (Some ex_png)
      else if body = ''JPGDATA'' then Probe_returns (Some ex_jpg)
      else Probe_throws)"

definition ex_uuids :: "nat \<Rightarrow> string" where
  "ex_uuids i = CHR ''k'' # replicate i CHR ''x''"

definition ex_env :: env where
  "ex_env =
     \<lparr>uuids = Abs_uuid_source ex_uuids,
      newPostId = ''p9'',
      newFileId = (\<lambda>i. CHR ''f'' # replicate i CHR ''y''),
      newAttachmentId = (\<lambda>i. CHR ''a'' # replicate i CHR ''z''),
      now = 40,
      probe = ex_probe,
      getSignedUrl = (\<lambda>key. ''https://s3/'' @ key),
      S3_WEB_ENDPOINT = ''https://web''\<rparr>"

definition ex_s3 :: bucket where
  "ex_s3 =
     (\<lambda>key. if key = ''s1'' then Some \<lparr>ContentLength = Some 7, Body = ''PNGDATA''\<rparr>
            else if key = ''s2'' then Some \<lparr>ContentLength = Some 7, Body = ''JPGDATA''\<rparr>
            else if key = ''s3'' then Some \<lparr>ContentLength = Some 4, Body = ''TEXT''\<rparr>
            else if key = ''s0'' then Some \<lparr>ContentLength = Some 0, Body = []\<rparr>
            else None)"

definition ex_ctx :: ctx where
  "ex_ctx = \<lparr>session_user_id = ''u3''\<rparr>"

text \<open>
  Carol reblogs \<open>p1\<close> without content and with uploads. In the bucket \<open>s1\<close> holds a PNG
  image, \<open>s2\<close> a JPEG image (declared as \<open>png\<close> in \<open>ex_bad_input\<close>), \<open>s3\<close> text that is
  no image, \<open>s0\<close> an empty object; there is no object \<open>s9\<close>.
\<close>

definition ex_input :: create_input where
  "ex_input = \<lparr>in_profileId = ''carol'', in_inReplyToId = None, in_reblogId = Some ''p1'',
     in_content = None, in_files = Some [\<lparr>up_key = ''s1'', up_ext = ''png''\<rparr>]\<rparr>"

definition ex_bad_input :: create_input where
  "ex_bad_input = \<lparr>in_profileId = ''carol'', in_inReplyToId = None, in_reblogId = Some ''p1'',
     in_content = None,
     in_files = Some [\<lparr>up_key = ''s1'', up_ext = ''png''\<rparr>, \<lparr>up_key = ''s2'', up_ext = ''png''\<rparr>]\<rparr>"

definition ex_reply_input :: create_input where
  "ex_reply_input = \<lparr>in_profileId = ''carol'', in_inReplyToId = Some ''p1'', in_reblogId = None,
     in_content = Some ''yes'', in_files = None\<rparr>"

definition ex_forbidden_input :: create_input where
  "ex_forbidden_input = ex_input\<lparr>in_profileId := ''bob''\<rparr>"

definition ex_created :: "(db \<times> bucket) \<times> (error + created_post)" where
  "ex_created = create ex_env ex_ctx ex_input ex_db ex_s3"

definition ex_rejected :: "(db \<times> bucket) \<times> (error + created_post)" where
  "ex_rejected = create ex_env ex_ctx ex_bad_input ex_db ex_s3"

definition ex_replied :: "(db \<times> bucket) \<times> (error + created_post)" where
  "ex_replied = create ex_env ex_ctx ex_reply_input ex_db ex_s3"

definition ex_upload_input :: "string \<Rightarrow> create_input" where
  "ex_upload_input key = \<lparr>in_profileId = ''carol'', in_inReplyToId = None,
     in_reblogId = Some ''p1'', in_content = None,
     in_files = Some [\<lparr>up_key = key, up_ext = ''png''\<rparr>]\<rparr>"

definition ex_empty_input :: create_input where
  "ex_empty_input = \<lparr>in_profileId = ''carol'', in_inReplyToId = None, in_reblogId = None,
     in_content = None, in_files = Some []\<rparr>"

section \<open>Properties of the annotation pipeline\<close>

lemma includes_reblogIds:
  "array_includes (map p_reblogId (findMany_reblogs d (Some v))) (Some i) \<longleftrightarrow> i \<in> viewer_R d v"
  by (auto simp: array_includes_def findMany_reblogs_def where_profileId_def viewer_R_def image_iff)

lemma includes_favoriteIds:
  "array_includes (map fav_postId (findMany_favorites d (Some v))) i \<longleftrightarrow> i \<in> viewer_F d v"
  by (auto simp: array_includes_def findMany_favorites_def where_profileId_def viewer_F_def image_iff)

lemma ci_length: "length (computeInteractions d ps v) = length ps"
  by (simp add: computeInteractions_def)

lemma ci_nth: "i < length ps \<Longrightarrow> computeInteractions d ps v ! i =
  annotate (map p_reblogId (findMany_reblogs d v)) (map fav_postId (findMany_favorites d v)) (ps ! i)"
  by (simp add: computeInteractions_def)

lemma includes_reblogIds_all:
  "array_includes (map p_reblogId (findMany_reblogs d None)) (Some i) \<longleftrightarrow> i \<in> all_R d"
  by (auto simp: array_includes_def findMany_reblogs_def where_profileId_def all_R_def image_iff)

lemma includes_favoriteIds_all:
  "array_includes (map fav_postId (findMany_favorites d None)) i \<longleftrightarrow> i \<in> all_F d"
  by (auto simp: array_includes_def findMany_favorites_def where_profileId_def all_F_def image_iff)

lemmas ex_rows = ex_p1_def ex_p2_def ex_p3_def ex_f1_def ex_db_def

lemma ex_posts_0: "ex_posts ! 0 = include_post ex_db ex_p1"
  by (simp add: ex_posts_def)

lemma ex_posts_len: "length ex_posts = 3"
  by (simp add: ex_posts_def)

lemma ex_p1_R_bob: "''p1'' \<in> viewer_R ex_db ''bob''"
  by (simp add: viewer_R_def ex_rows)

lemma ex_p1_F_bob: "''p1'' \<notin> viewer_F ex_db ''bob''"
  by (simp add: viewer_F_def ex_rows)

text \<open>
  Claim C2. For every list of hydrated posts and every viewer, \<open>computeInteractions\<close>
  returns as many posts as it was given, in the same order (the \<open>i\<close>-th output carries
  the fields of the \<open>i\<close>-th input); the \<open>isReblogged\<close> flag of each output is membership
  of the post's id in \<open>R\<close>, its \<open>isFavorited\<close> flag membership in \<open>F\<close>; and a reblog
  target that is present is annotated with the same two memberships for its own id.
\<close>

theorem computeInteractions_membership:
  "length (computeInteractions d ps (Some v)) = length ps \<and>
   map wi_post (computeInteractions d ps (Some v)) = map post_base ps \<and>
   (\<forall>i < length ps.
      isReblogged (computeInteractions d ps (Some v) ! i)
        = (p_id (h_row (post_base (ps ! i))) \<in> viewer_R d v) \<and>
      isFavorited (computeInteractions d ps (Some v) ! i)
        = (p_id (h_row (post_base (ps ! i))) \<in> viewer_F d v) \<and>
      (\<forall>t. post_reblog (ps ! i) = Some t \<longrightarrow>
         (\<exists>n. reblog (computeInteractions d ps (Some v) ! i) = Some n \<and>
              wi_post n = t \<and>
              isReblogged n = (p_id (h_row t) \<in> viewer_R d v) \<and>
              isFavorited n = (p_id (h_row t) \<in> viewer_F d v))))"
proof (intro conjI allI impI)
  show "length (computeInteractions d ps (Some v)) = length ps"
    by (rule ci_length)
  show "map wi_post (computeInteractions d ps (Some v)) = map post_base ps"
    by (simp add: computeInteractions_def annotate_def Let_def)
next
  fix i assume i: "i < length ps"
  show "isReblogged (computeInteractions d ps (Some v) ! i)
        = (p_id (h_row (post_base (ps ! i))) \<in> viewer_R d v)"
    using i by (simp add: ci_nth annotate_def Let_def includes_reblogIds)
  show "isFavorited (computeInteractions d ps (Some v) ! i)
        = (p_id (h_row (post_base (ps ! i))) \<in> viewer_F d v)"
    using i by (simp add: ci_nth annotate_def Let_def includes_favoriteIds)
  fix t assume t: "post_reblog (ps ! i) = Some t"
  show "\<exists>n. reblog (computeInteractions d ps (Some v) ! i) = Some n \<and>
              wi_post n = t \<and>
              isReblogged n = (p_id (h_row t) \<in> viewer_R d v) \<and>
              isFavorited n = (p_id (h_row t) \<in> viewer_F d v)"
    using i t by (simp add: ci_nth annotate_def Let_def includes_reblogIds includes_favoriteIds)
qed

theorem computeInteractions_membership_witness:
  "length (computeInteractions ex_db ex_posts (Some ''bob'')) = 3 \<and>
   p_id (h_row (post_base (ex_posts ! 0))) = ''p1'' \<and>
   ''p1'' \<in> viewer_R ex_db ''bob'' \<and>
   isReblogged (computeInteractions ex_db ex_posts (Some ''bob'') ! 0) \<and>
   ''p1'' \<notin> viewer_F ex_db ''bob'' \<and>
   \<not> isFavorited (computeInteractions ex_db ex_posts (Some ''bob'') ! 0)"
proof -
  note T = computeInteractions_membership [of ex_db ex_posts "''bob''"]
  have id0: "p_id (h_row (post_base (ex_posts ! 0))) = ''p1''"
    by (simp add: ex_posts_0 include_post_def include_base_def ex_p1_def)
  have zero: "0 < length ex_posts"
    by (simp add: ex_posts_len)
  from T zero have
    "isReblogged (computeInteractions ex_db ex_posts (Some ''bob'') ! 0)
       = (p_id (h_row (post_base (ex_posts ! 0))) \<in> viewer_R ex_db ''bob'')"
    "isFavorited (computeInteractions ex_db ex_posts (Some ''bob'') ! 0)
       = (p_id (h_row (post_base (ex_posts ! 0))) \<in> viewer_F ex_db ''bob'')"
    by blast+
  with T id0 ex_p1_R_bob ex_p1_F_bob show ?thesis
    by (simp add: ex_posts_len)
qed

text \<open>
  Claim C3 says that without a viewer every flag is false. The two lookups then carry
  no condition on the profile, so the rows of every profile count: in the small store
  \<open>p1\<close>, reblogged by bob and marked by carol, comes out with both flags set.
\<close>

theorem computeInteractions_no_viewer_counterexample:
  "isReblogged (computeInteractions ex_db [include_post ex_db ex_p1] None ! 0) \<and>
   isFavorited (computeInteractions ex_db [include_post ex_db ex_p1] None ! 0)"
  by (simp add: computeInteractions_def annotate_def array_includes_def findMany_reblogs_def
      findMany_favorites_def where_profileId_def include_post_def include_base_def ex_rows)

text \<open>
  Claim C3, amended. Without a viewer, \<open>R\<close> is the set of reblog targets of all posts
  without content, of whatever profile, and \<open>F\<close> the set of posts of all Favorite rows;
  each flag, of a post and of its reblog target, is membership in these sets. All flags
  are false when both sets are empty.
\<close>

theorem computeInteractions_no_viewer:
  "(\<forall>i < length ps.
      isReblogged (computeInteractions d ps None ! i)
        = (p_id (h_row (post_base (ps ! i))) \<in> all_R d) \<and>
      isFavorited (computeInteractions d ps None ! i)
        = (p_id (h_row (post_base (ps ! i))) \<in> all_F d) \<and>
      (\<forall>t. post_reblog (ps ! i) = Some t \<longrightarrow>
         (\<exists>n. reblog (computeInteractions d ps None ! i) = Some n \<and>
              isReblogged n = (p_id (h_row t) \<in> all_R d) \<and>
              isFavorited n = (p_id (h_row t) \<in> all_F d)))) \<and>
   (all_R d = {} \<and> all_F d = {} \<longrightarrow>
      (\<forall>a \<in> set (computeInteractions d ps None).
         \<not> isReblogged a \<and> \<not> isFavorited a \<and>
         (\<forall>n. reblog a = Some n \<longrightarrow> \<not> isReblogged n \<and> \<not> isFavorited n)))"
proof (intro conjI allI impI ballI)
  fix i assume i: "i < length ps"
  show "isReblogged (computeInteractions d ps None ! i)
        = (p_id (h_row (post_base (ps ! i))) \<in> all_R d)"
    using i by (simp add: ci_nth annotate_def Let_def includes_reblogIds_all)
  show "isFavorited (computeInteractions d ps None ! i)
        = (p_id (h_row (post_base (ps ! i))) \<in> all_F d)"
    using i by (simp add: ci_nth annotate_def Let_def includes_favoriteIds_all)
  fix t assume t: "post_reblog (ps ! i) = Some t"
  show "\<exists>n. reblog (computeInteractions d ps None ! i) = Some n \<and>
              isReblogged n = (p_id (h_row t) \<in> all_R d) \<and>
              isFavorited n = (p_id (h_row t) \<in> all_F d)"
    using i t by (simp add: ci_nth annotate_def Let_def includes_reblogIds_all includes_favoriteIds_all)
next
  fix a assume e: "all_R d = {} \<and> all_F d = {}"
    and a: "a \<in> set (computeInteractions d ps None)"
  from a obtain p where p: "a = annotate (map p_reblogId (findMany_reblogs d None))
      (map fav_postId (findMany_favorites d None)) p"
    by (auto simp: computeInteractions_def)
  show "\<not> isReblogged a" "\<not> isFavorited a"
    using e by (simp_all add: p annotate_def Let_def includes_reblogIds_all includes_favoriteIds_all)
  fix n assume "reblog a = Some n"
  then show "\<not> isReblogged n" "\<not> isFavorited n"
    using e by (auto simp: p annotate_def Let_def includes_reblogIds_all includes_favoriteIds_all
        split: option.splits)
qed


theorem computeInteractions_no_viewer_witness:
  "p_id (h_row (post_base (ex_posts ! 0))) = ''p1'' \<and> ''p1'' \<in> all_R ex_db \<and>
   isReblogged (computeInteractions ex_db ex_posts None ! 0) \<and>
   all_R (ex_db\<lparr>posts := [ex_p1], favorites := []\<rparr>) = {} \<and>
   all_F (ex_db\<lparr>posts := [ex_p1], favorites := []\<rparr>) = {} \<and>
   \<not> isReblogged (computeInteractions (ex_db\<lparr>posts := [ex_p1], favorites := []\<rparr>) ex_posts None ! 0)"
proof -
  let ?d = "ex_db\<lparr>posts := [ex_p1], favorites := []\<rparr>"
  have id0: "p_id (h_row (post_base (ex_posts ! 0))) = ''p1''"
    by (simp add: ex_posts_0 include_post_def include_base_def ex_p1_def)
  have zero: "0 < length ex_posts"
    by (simp add: ex_posts_len)
  have inR: "''p1'' \<in> all_R ex_db"
    by (simp add: all_R_def ex_rows)
  have empty: "all_R ?d = {} \<and> all_F ?d = {}"
    by (simp add: all_R_def all_F_def ex_rows)
  from computeInteractions_no_viewer [of ex_posts ex_db] zero
  have a: "isReblogged (computeInteractions ex_db ex_posts None ! 0)
       = (p_id (h_row (post_base (ex_posts ! 0))) \<in> all_R ex_db)"
    by blast
  have mem: "computeInteractions ?d ex_posts None ! 0 \<in> set (computeInteractions ?d ex_posts None)"
    by (rule nth_mem) (simp add: ci_length ex_posts_len)
  from computeInteractions_no_viewer [of ex_posts ?d] empty mem
  have b: "\<not> isReblogged (computeInteractions ?d ex_posts None ! 0)"
    by blast
  from a b id0 inR empty show ?thesis
    by simp
qed

text \<open>
  Claim C8. In the output of \<open>computeInteractions\<close>, whatever the viewer, the nested
  annotation of a post is \<open>null\<close> exactly when the input post has no reblog target; for
  a target that is present the nested object carries the target's fields and the two
  flags computed for the target's id, and its own nested annotation is \<open>null\<close>.
\<close>

theorem nested_reblog_annotation:
  "\<forall>i < length ps.
     (reblog (computeInteractions d ps v ! i) = None \<longleftrightarrow> post_reblog (ps ! i) = None) \<and>
     (\<forall>t. post_reblog (ps ! i) = Some t \<longrightarrow>
        (\<exists>n. reblog (computeInteractions d ps v ! i) = Some n \<and>
             wi_post n = t \<and>
             isReblogged n = array_includes (map p_reblogId (findMany_reblogs d v)) (Some (p_id (h_row t))) \<and>
             isFavorited n = array_includes (map fav_postId (findMany_favorites d v)) (p_id (h_row t)) \<and>
             reblog n = None))"
  by (auto simp: ci_nth annotate_def Let_def split: option.splits)

lemma ex_posts_1: "ex_posts ! 1 = include_post ex_db ex_p2"
  by (simp add: ex_posts_def)

theorem nested_reblog_annotation_witness:
  "post_reblog (ex_posts ! 0) = None \<and>
   reblog (computeInteractions ex_db ex_posts (Some ''bob'') ! 0) = None \<and>
   post_reblog (ex_posts ! 1) = Some (include_base ex_db ex_p1) \<and>
   map_option wi_post (reblog (computeInteractions ex_db ex_posts (Some ''bob'') ! 1))
     = Some (include_base ex_db ex_p1) \<and>
   map_option reblog (reblog (computeInteractions ex_db ex_posts (Some ''bob'') ! 1)) = Some None"
proof -
  note T = nested_reblog_annotation [of ex_posts ex_db "Some ''bob''"]
  have r0: "post_reblog (ex_posts ! 0) = None"
    by (simp add: ex_posts_0 include_post_def ex_p1_def)
  have r1: "post_reblog (ex_posts ! 1) = Some (include_base ex_db ex_p1)"
    by (simp add: ex_posts_def include_post_def ex_rows)
  have "0 < length ex_posts" "1 < length ex_posts"
    by (simp_all add: ex_posts_len)
  with T r0 r1 have
    "reblog (computeInteractions ex_db ex_posts (Some ''bob'') ! 0) = None"
    "\<exists>n. reblog (computeInteractions ex_db ex_posts (Some ''bob'') ! 1) = Some n \<and>
         wi_post n = include_base ex_db ex_p1 \<and> reblog n = None"
    by blast+
  with r0 r1 show ?thesis
    by auto
qed

section \<open>Properties of reading the posts of a profile\<close>

lemma rows_annotate: "h_row (wi_post (annotate rs fs (include_post d p))) = p"
  by (simp add: annotate_def Let_def include_post_def include_base_def)

lemma getByProfileId_rows:
  "map (\<lambda>a. h_row (wi_post a)) (getByProfileId d inp) =
     orderBy_createdAt_desc
       (filter (where_matches d (profile_filter (gi_filter inp)) (gi_profileId inp)) (posts d))"
  by (simp add: getByProfileId_def computeInteractions_def findMany_profile_posts_def Let_def
      comp_def rows_annotate)

lemma attachments_annotate:
  "h_attachments (wi_post (annotate rs fs (include_post d p))) =
     map (\<lambda>a. (a, find (\<lambda>f. f_id f = att_fileId a) (files d)))
       (filter (\<lambda>a. att_postId a = p_id p) (attachments d))"
  by (simp add: annotate_def Let_def include_post_def include_base_def)

lemma getByProfileId_elem:
  assumes "a \<in> set (getByProfileId d inp)"
  shows "\<exists>p \<in> set (posts d).
           where_matches d (profile_filter (gi_filter inp)) (gi_profileId inp) p \<and>
           h_row (wi_post a) = p \<and>
           h_attachments (wi_post a) =
             map (\<lambda>a. (a, find (\<lambda>f. f_id f = att_fileId a) (files d)))
               (filter (\<lambda>a. att_postId a = p_id p) (attachments d))"
  using assms
  by (auto simp: getByProfileId_def computeInteractions_def findMany_profile_posts_def Let_def
      orderBy_createdAt_desc_def rows_annotate attachments_annotate)

lemma orderBy_sorted:
  "sorted_wrt (\<lambda>p q. p_createdAt q \<le> p_createdAt p) (orderBy_createdAt_desc rows)"
proof -
  have "sorted (map (\<lambda>p. - p_createdAt p) (orderBy_createdAt_desc rows))"
    unfolding orderBy_createdAt_desc_def by (rule sorted_sort_key)
  then show ?thesis
    by (simp add: sorted_wrt_map)
qed

text \<open>
  Claim C10. Every post \<open>getByProfileId\<close> returns belongs to the requested profile, and
  the posts come by descending creation time. Without a filter every returned post has
  \<open>inReplyToId\<close> null; with \<open>"with-replies"\<close> no condition on replies is applied (the
  rows returned are exactly the rows of the profile); with \<open>"media"\<close> every returned
  post has at least one attachment.
\<close>

theorem getByProfileId_filter:
  "(\<forall>a \<in> set (getByProfileId d inp). p_profileId (h_row (wi_post a)) = gi_profileId inp) \<and>
   sorted_wrt (\<lambda>a b. p_createdAt (h_row (wi_post b)) \<le> p_createdAt (h_row (wi_post a)))
     (getByProfileId d inp) \<and>
   (gi_filter inp = None \<longrightarrow>
      (\<forall>a \<in> set (getByProfileId d inp). p_inReplyToId (h_row (wi_post a)) = None)) \<and>
   (gi_filter inp = Some With_replies \<longrightarrow>
      set (map (\<lambda>a. h_row (wi_post a)) (getByProfileId d inp))
        = {p \<in> set (posts d). p_profileId p = gi_profileId inp}) \<and>
   (gi_filter inp = Some Media \<longrightarrow>
      (\<forall>a \<in> set (getByProfileId d inp). \<not> (h_attachments (wi_post a) = [])))"
proof (intro conjI impI ballI)
  fix a assume "a \<in> set (getByProfileId d inp)"
  from getByProfileId_elem [OF this]
  show "p_profileId (h_row (wi_post a)) = gi_profileId inp"
    by (auto simp: where_matches_def)
next
  have "sorted_wrt (\<lambda>p q. p_createdAt q \<le> p_createdAt p)
          (map (\<lambda>a. h_row (wi_post a)) (getByProfileId d inp))"
    unfolding getByProfileId_rows by (rule orderBy_sorted)
  then show "sorted_wrt (\<lambda>a b. p_createdAt (h_row (wi_post b)) \<le> p_createdAt (h_row (wi_post a)))
     (getByProfileId d inp)"
    by (simp add: sorted_wrt_map)
next
  fix a assume n: "gi_filter inp = None" and "a \<in> set (getByProfileId d inp)"
  from getByProfileId_elem [OF this(2)] n
  show "p_inReplyToId (h_row (wi_post a)) = None"
    by (auto simp: where_matches_def profile_filter_def)
next
  assume w: "gi_filter inp = Some With_replies"
  show "set (map (\<lambda>a. h_row (wi_post a)) (getByProfileId d inp))
        = {p \<in> set (posts d). p_profileId p = gi_profileId inp}"
    unfolding getByProfileId_rows
    by (auto simp: orderBy_createdAt_desc_def where_matches_def profile_filter_def w)
next
  fix a assume m: "gi_filter inp = Some Media" and "a \<in> set (getByProfileId d inp)"
  from getByProfileId_elem [OF this(2)] m
  show "\<not> (h_attachments (wi_post a) = [])"
    by (auto simp: where_matches_def profile_filter_def list_ex_iff filter_empty_conv)
qed

lemma ex_getByProfileId_none:
  "map p_id (map (\<lambda>a. h_row (wi_post a))
     (getByProfileId ex_db \<lparr>gi_filter = None, gi_profileId = ''bob''\<rparr>)) = [''p2'']"
  by (simp add: getByProfileId_rows orderBy_createdAt_desc_def where_matches_def
      profile_filter_def ex_rows)

lemma ex_getByProfileId_replies:
  "map p_id (map (\<lambda>a. h_row (wi_post a))
     (getByProfileId ex_db \<lparr>gi_filter = Some With_replies, gi_profileId = ''bob''\<rparr>)) = [''p3'', ''p2'']"
  by (simp add: getByProfileId_rows orderBy_createdAt_desc_def where_matches_def
      profile_filter_def ex_rows)

lemma ex_getByProfileId_media:
  "map p_id (map (\<lambda>a. h_row (wi_post a))
     (getByProfileId ex_db \<lparr>gi_filter = Some Media, gi_profileId = ''alice''\<rparr>)) = [''p1'']"
  by (simp add: getByProfileId_rows orderBy_createdAt_desc_def where_matches_def
      profile_filter_def ex_rows)

lemma hd_in_result:
  "map p_id (map (\<lambda>a. h_row (wi_post a)) out) = x # xs \<Longrightarrow> hd out \<in> set out"
  by (cases out) auto

theorem getByProfileId_filter_witness:
  "p_profileId (h_row (wi_post (hd (getByProfileId ex_db
      \<lparr>gi_filter = None, gi_profileId = ''bob''\<rparr>)))) = ''bob'' \<and>
   p_inReplyToId (h_row (wi_post (hd (getByProfileId ex_db
      \<lparr>gi_filter = None, gi_profileId = ''bob''\<rparr>)))) = None \<and>
   ex_p3 \<in> set (map (\<lambda>a. h_row (wi_post a)) (getByProfileId ex_db
      \<lparr>gi_filter = Some With_replies, gi_profileId = ''bob''\<rparr>)) \<and>
   p_inReplyToId ex_p3 = Some ''p1'' \<and>
   h_attachments (wi_post (hd (getByProfileId ex_db
      \<lparr>gi_filter = Some Media, gi_profileId = ''alice''\<rparr>))) \<noteq> []"
proof -
  let ?n = "\<lparr>gi_filter = None, gi_profileId = ''bob''\<rparr>"
  let ?w = "\<lparr>gi_filter = Some With_replies, gi_profileId = ''bob''\<rparr>"
  let ?m = "\<lparr>gi_filter = Some Media, gi_profileId = ''alice''\<rparr>"
  have hn: "hd (getByProfileId ex_db ?n) \<in> set (getByProfileId ex_db ?n)"
    by (rule hd_in_result [OF ex_getByProfileId_none])
  have hm: "hd (getByProfileId ex_db ?m) \<in> set (getByProfileId ex_db ?m)"
    by (rule hd_in_result [OF ex_getByProfileId_media])
  from getByProfileId_filter [of ex_db ?n] hn
  have a: "p_profileId (h_row (wi_post (hd (getByProfileId ex_db ?n)))) = ''bob''"
    and b: "p_inReplyToId (h_row (wi_post (hd (getByProfileId ex_db ?n)))) = None"
    by auto
  have "ex_p3 \<in> {p \<in> set (posts ex_db). p_profileId p = gi_profileId ?w}"
    by (simp add: ex_rows)
  with getByProfileId_filter [of ex_db ?w]
  have c: "ex_p3 \<in> set (map (\<lambda>a. h_row (wi_post a)) (getByProfileId ex_db ?w))"
    by simp
  from getByProfileId_filter [of ex_db ?m] hm
  have d: "h_attachments (wi_post (hd (getByProfileId ex_db ?m))) \<noteq> []"
    by auto
  from a b c d show ?thesis
    by (simp add: ex_p3_def)
qed


section \<open>Properties of the presigned upload URLs\<close>

lemma ex_uuids_inj: "inj ex_uuids"
proof (rule injI)
  fix x y assume "ex_uuids x = ex_uuids y"
  then have "replicate x CHR ''x'' = replicate y CHR ''x''"
    by (simp add: ex_uuids_def)
  then have "length (replicate x CHR ''x'') = length (replicate y CHR ''x'')"
    by (rule arg_cong)
  then show "x = y"
    by simp
qed

lemma Rep_ex_uuids: "Rep_uuid_source (Abs_uuid_source ex_uuids) = ex_uuids"
  by (rule Abs_uuid_source_inverse) (simp add: ex_uuids_inj)


lemmas ex_env_eval = ex_env_def uuidv4_def Rep_ex_uuids ex_uuids_def






section \<open>Properties of creating a post\<close>

text \<open>
  Claim C5. An input of \<open>create\<close> with no \<open>inReplyToId\<close>, no \<open>reblogId\<close>, no \<open>content\<close>
  and no file (the list absent or empty) is rejected by the schema: the store and the
  bucket are as before, so no row of any table is created.
\<close>

theorem create_rejects_empty_input:
  assumes "in_inReplyToId inp = None" and "in_reblogId inp = None" and "in_content inp = None"
    and "in_files inp = None \<or> in_files inp = Some []"
  shows "create e c inp d s3 = ((d, s3), Inl ZodError)"
proof -
  from assms have "\<not> create_refine inp"
    by (auto simp: create_refine_def truthy_def)
  then show ?thesis
    by (simp add: create_def create_schema_def)
qed

theorem create_rejects_empty_input_witness:
  "in_inReplyToId ex_empty_input = None \<and> in_reblogId ex_empty_input = None \<and>
   in_content ex_empty_input = None \<and> in_files ex_empty_input = Some [] \<and>
   create ex_env ex_ctx ex_empty_input ex_db ex_s3 = ((ex_db, ex_s3), Inl ZodError)"
proof -
  have h: "in_inReplyToId ex_empty_input = None" "in_reblogId ex_empty_input = None"
    "in_content ex_empty_input = None" "in_files ex_empty_input = Some []"
    by (simp_all add: ex_empty_input_def)
  from create_rejects_empty_input [OF h(1,2,3) disjI2 [OF h(4)]] h show ?thesis
    by simp
qed

lemma promote_ok:
  assumes "promote e pid i u d s3 = (s3', Inr d')"
  shows "\<exists>object ft.
           fetched e i u s3 = Some (s3', object) \<and>
           probe e (Body object) = Probe_returns (Some ft) \<and>
           \<not> invalid_file u object (Some ft) \<and>
           d' = d\<lparr>files := files d @ [file_data e i u (upload_name e i u)
                                         (the (ContentLength object)) ft],
                  attachments := attachments d @ [new_attachment e pid i]\<rparr>"
  using assms
  by (auto simp: promote_def fetched_def Let_def file_create_def attachment_create_def
      invalid_file_def split: sum.splits probe_outcome.splits if_splits option.splits)


lemma bump_split: "bump inp q = bump_reblogs inp (bump_replies inp q)"
  by (simp add: bump_def bump_replies_def bump_reblogs_def)

lemma replies_step:
  assumes "(if truthy (in_inReplyToId inp)
            then increment_repliesCount (the (in_inReplyToId inp)) d1 else Inr d1) = Inr d2"
  shows "d2 = d1\<lparr>posts := map (bump_replies inp) (posts d1)\<rparr>"
proof (cases "truthy (in_inReplyToId inp)")
  case True
  with assms show ?thesis
    by (auto simp: increment_repliesCount_def bump_replies_def split: if_splits)
next
  case False
  then have "bump_replies inp = (\<lambda>q. q)"
    by (simp add: bump_replies_def fun_eq_iff)
  then have "map (bump_replies inp) (posts d1) = posts d1"
    by simp
  with assms False show ?thesis
    by simp
qed

lemma reblogs_step:
  assumes "(if truthy (in_reblogId inp)
            then increment_reblogsCount (the (in_reblogId inp)) d2 else Inr d2) = Inr d3"
  shows "d3 = d2\<lparr>posts := map (bump_reblogs inp) (posts d2)\<rparr>"
proof (cases "truthy (in_reblogId inp)")
  case True
  with assms show ?thesis
    by (auto simp: increment_reblogsCount_def bump_reblogs_def split: if_splits)
next
  case False
  then have "bump_reblogs inp = (\<lambda>q. q)"
    by (simp add: bump_reblogs_def fun_eq_iff)
  then have "map (bump_reblogs inp) (posts d2) = posts d2"
    by simp
  with assms False show ?thesis
    by simp
qed

lemma create_counters_ok:
  assumes "create_counters inp d1 = Inr d3"
  shows "d3 = d1\<lparr>posts := map (bump inp) (posts d1)\<rparr>"
proof -
  from assms obtain d2 where
    a: "(if truthy (in_inReplyToId inp)
         then increment_repliesCount (the (in_inReplyToId inp)) d1 else Inr d1) = Inr d2"
    and b: "(if truthy (in_reblogId inp)
         then increment_reblogsCount (the (in_reblogId inp)) d2 else Inr d2) = Inr d3"
    unfolding create_counters_def by (auto split: sum.splits)
  have "map (bump inp) (posts d1) = map (bump_reblogs inp) (map (bump_replies inp) (posts d1))"
    by (simp add: bump_split)
  with replies_step [OF a] reblogs_step [OF b] show ?thesis
    by simp
qed

lemma promote_all_ok:
  assumes "promote_all e pid i us d s3 = (s3', Inr d')"
  shows "posts d' = posts d \<and> favorites d' = favorites d \<and> profiles d' = profiles d \<and>
         attachments d' = attachments d @ map (new_attachment e pid) [i..<i + length us] \<and>
         (\<exists>new. files d' = files d @ new \<and>
            map f_id new = map (newFileId e) [i..<i + length us] \<and>
            (\<forall>f \<in> set new.
               \<exists>body ft. probe e body = Probe_returns (Some ft) \<and>
                         f_width f = probe_height ft \<and> f_height f = probe_width ft \<and>
                         f_mime f = probe_mime ft \<and> f_extension f = probe_type ft))"
  using assms
proof (induction us arbitrary: i d s3)
  case Nil
  then show ?case by simp
next
  case (Cons u us)
  from Cons.prems obtain s3m dm where
    one: "promote e pid i u d s3 = (s3m, Inr dm)"
    and rest: "promote_all e pid (Suc i) us dm s3m = (s3', Inr d')"
    by (auto split: prod.splits sum.splits)
  from promote_ok [OF one] obtain object ft where
    pr: "probe e (Body object) = Probe_returns (Some ft)"
    and valid: "\<not> invalid_file u object (Some ft)"
    and dm: "dm = d\<lparr>files := files d @ [file_data e i u (upload_name e i u)
                                         (the (ContentLength object)) ft],
                  attachments := attachments d @ [new_attachment e pid i]\<rparr>"
    by blast
  let ?f0 = "file_data e i u (upload_name e i u) (the (ContentLength object)) ft"
  from Cons.IH [OF rest] obtain new where
    same: "posts d' = posts dm" "favorites d' = favorites dm" "profiles d' = profiles dm"
    and att: "attachments d' = attachments dm @ map (new_attachment e pid) [Suc i..<Suc i + length us]"
    and fl: "files d' = files dm @ new"
    and ids: "map f_id new = map (newFileId e) [Suc i..<Suc i + length us]"
    and sw: "\<forall>f \<in> set new.
               \<exists>body ft. probe e body = Probe_returns (Some ft) \<and>
                         f_width f = probe_height ft \<and> f_height f = probe_width ft \<and>
                         f_mime f = probe_mime ft \<and> f_extension f = probe_type ft"
    by blast
  have "[i..<i + Suc (length us)] = i # [Suc i..<i + Suc (length us)]"
    by (rule upt_conv_Cons) simp
  then have idx: "[i..<i + length (u # us)] = i # [Suc i..<Suc i + length us]"
    by simp
  from valid have ext: "up_ext u = probe_type ft"
    by (simp add: invalid_file_def)
  have f0: "\<exists>body ft. probe e body = Probe_returns (Some ft) \<and>
              f_width ?f0 = probe_height ft \<and> f_height ?f0 = probe_width ft \<and>
              f_mime ?f0 = probe_mime ft \<and> f_extension ?f0 = probe_type ft"
    using pr ext by (intro exI [of _ "Body object"] exI [of _ ft]) (simp add: file_data_def)
  have "files d' = files d @ (?f0 # new)"
    using fl dm by simp
  moreover have "map f_id (?f0 # new) = map (newFileId e) [i..<i + length (u # us)]"
    unfolding idx using ids by (simp add: file_data_def)
  moreover have "\<forall>f \<in> set (?f0 # new).
               \<exists>body ft. probe e body = Probe_returns (Some ft) \<and>
                         f_width f = probe_height ft \<and> f_height f = probe_width ft \<and>
                         f_mime f = probe_mime ft \<and> f_extension f = probe_type ft"
    using f0 sw by simp
  moreover have "attachments d' = attachments d @ map (new_attachment e pid) [i..<i + length (u # us)]"
    unfolding idx using att dm by simp
  moreover have "posts d' = posts d" "favorites d' = favorites d" "profiles d' = profiles d"
    using same dm by simp_all
  ultimately show ?case
    by blast
qed

lemma find_new_post:
  assumes "\<not> list_ex (\<lambda>q. p_id q = p_id r) xs"
  shows "find (\<lambda>q. p_id q = p_id r) (map (bump inp) (xs @ [r])) = Some (bump inp r)"
  using assms by (induction xs) (auto simp: bump_def)

lemma create_tx_ok:
  assumes "create_tx e c inp d s3 = (s3', Inr (d', r))"
  shows "committed e inp d d' \<and>
         \<not> list_ex (\<lambda>q. p_id q = newPostId e) (posts d) \<and>
         \<not> (profile_findFirst d (in_profileId inp) (session_user_id c) = None) \<and>
         (\<forall>f \<in> set (drop (length (files d)) (files d')).
            \<exists>body ft. probe e body = Probe_returns (Some ft) \<and>
                      f_width f = probe_height ft \<and> f_height f = probe_width ft \<and>
                      f_mime f = probe_mime ft \<and> f_extension f = probe_type ft) \<and>
         r = \<lparr>c_isReblogged = False, c_isFavorited = False,
              c_post = include_post d' (bump inp (new_post_row e inp))\<rparr>"
proof -
  from assms obtain d1 d3 where
    perm: "\<not> (profile_findFirst d (in_profileId inp) (session_user_id c) = None)"
    and ins: "post_create (new_post_row e inp) d = Inr d1"
    and cnt: "create_counters inp d1 = Inr d3"
    and fls: "(case in_files inp of None \<Rightarrow> (s3, Inr d3)
               | Some fs \<Rightarrow> promote_all e (newPostId e) 0 fs d3 s3) = (s3', Inr d')"
    and res: "post_findUniqueOrThrow d' (newPostId e) = Inr (c_post r)"
    and flags: "c_isReblogged r = False" "c_isFavorited r = False"
    unfolding create_tx_def Let_def
    by (auto split: if_splits sum.splits prod.splits)
  from ins have fresh: "\<not> list_ex (\<lambda>q. p_id q = newPostId e) (posts d)"
    and d1: "d1 = d\<lparr>posts := posts d @ [new_post_row e inp]\<rparr>"
    by (auto simp: post_create_def new_post_row_def split: if_splits)
  note d3 = create_counters_ok [OF cnt]
  have "promote_all e (newPostId e) 0 (case in_files inp of None \<Rightarrow> [] | Some fs \<Rightarrow> fs) d3 s3
      = (s3', Inr d')"
    using fls by (simp split: option.splits)
  from promote_all_ok [OF this] obtain new where
    same: "posts d' = posts d3" "favorites d' = favorites d3" "profiles d' = profiles d3"
    and att: "attachments d' = attachments d3 @
        map (new_attachment e (newPostId e)) [0..<upload_count inp]"
    and fl: "files d' = files d3 @ new"
    and ids: "map f_id new = map (newFileId e) [0..<upload_count inp]"
    and sw: "\<forall>f \<in> set new.
               \<exists>body ft. probe e body = Probe_returns (Some ft) \<and>
                         f_width f = probe_height ft \<and> f_height f = probe_width ft \<and>
                         f_mime f = probe_mime ft \<and> f_extension f = probe_type ft"
    by (auto simp: upload_count_def split: option.splits)
  have com: "committed e inp d d'"
    using same att fl ids d1 d3 by (simp add: committed_def)
  have "drop (length (files d)) (files d') = new"
    using fl d1 d3 by simp
  with sw have sw': "\<forall>f \<in> set (drop (length (files d)) (files d')).
               \<exists>body ft. probe e body = Probe_returns (Some ft) \<and>
                         f_width f = probe_height ft \<and> f_height f = probe_width ft \<and>
                         f_mime f = probe_mime ft \<and> f_extension f = probe_type ft"
    by simp
  have "posts d' = map (bump inp) (posts d @ [new_post_row e inp])"
    using com by (simp add: committed_def)
  moreover have "\<not> list_ex (\<lambda>q. p_id q = p_id (new_post_row e inp)) (posts d)"
    using fresh by (simp add: new_post_row_def)
  ultimately have "find (\<lambda>q. p_id q = newPostId e) (posts d') = Some (bump inp (new_post_row e inp))"
    using find_new_post [of "new_post_row e inp" "posts d" inp] by (simp add: new_post_row_def)
  with res have "c_post r = include_post d' (bump inp (new_post_row e inp))"
    by (simp add: post_findUniqueOrThrow_def)
  with flags have "r = \<lparr>c_isReblogged = False, c_isFavorited = False,
              c_post = include_post d' (bump inp (new_post_row e inp))\<rparr>"
    by (cases r) simp
  with com fresh perm sw' show ?thesis
    by blast
qed


lemma create_ok:
  assumes "create e c inp d s3 = ((d', s3'), Inr r)"
  shows "create_schema inp \<and> create_tx e c inp d s3 = (s3', Inr (d', r))"
  using assms by (auto simp: create_def split: if_splits prod.splits sum.splits)

lemma create_failed:
  assumes "create e c inp d s3 = ((d', s3'), Inl x)"
  shows "d' = d"
  using assms by (auto simp: create_def split: if_splits prod.splits sum.splits)

text \<open>
  Claim C1. Whatever the input, \<open>create\<close> either commits in full or leaves the store
  as it was. When it returns a post, the input satisfied the schema and the store is
  the committed store: the Post row, the counter increments, one File row and one
  Attachment row per upload are all there. When it fails, for whatever reason, the
  store is unchanged: no Post, Attachment or File row was added and no counter moved.
  In particular, when the caller's account does not own the profile, the call fails
  with the permission error and changes neither the store nor the bucket.
\<close>

theorem create_commits_or_rolls_back:
  assumes "create e c inp d s3 = ((d', s3'), res)"
  shows "(((\<exists>r. res = Inr r) \<and> create_schema inp \<and> committed e inp d d') \<or>
          ((\<exists>x. res = Inl x) \<and> d' = d)) \<and>
         (create_schema inp \<and>
          profile_findFirst d (in_profileId inp) (session_user_id c) = None \<longrightarrow>
            res = Inl FORBIDDEN \<and> d' = d \<and> s3' = s3)"
proof (rule conjI)
  show "((\<exists>r. res = Inr r) \<and> create_schema inp \<and> committed e inp d d') \<or>
        ((\<exists>x. res = Inl x) \<and> d' = d)"
  proof (cases res)
    case (Inl x)
    with assms create_failed show ?thesis
      by blast
  next
    case (Inr r)
    with assms create_ok [of e c inp d s3 d' s3' r] create_tx_ok [of e c inp d s3 s3' d' r]
    show ?thesis
      by blast
  qed
next
  show "create_schema inp \<and>
          profile_findFirst d (in_profileId inp) (session_user_id c) = None \<longrightarrow>
            res = Inl FORBIDDEN \<and> d' = d \<and> s3' = s3"
    using assms by (auto simp: create_def create_tx_def)
qed

lemma p_id_bump: "p_id (bump inp q) = p_id q"
  by (simp add: bump_def)

lemma find_old_post:
  assumes "list_ex (\<lambda>q. p_id q = i) xs"
  shows "find (\<lambda>q. p_id q = i) (map (bump inp) (xs @ [r])) =
           map_option (bump inp) (find (\<lambda>q. p_id q = i) xs)"
  using assms by (induction xs) (auto simp: p_id_bump)

lemma find_id: "find (\<lambda>q. p_id q = i) xs = Some q \<Longrightarrow> p_id q = i"
  by (induction xs) (auto split: if_splits)

lemma find_list_ex: "find P xs = Some q \<Longrightarrow> list_ex P xs"
  by (induction xs) (auto split: if_splits)

lemma counters_after:
  assumes com: "committed e inp d d'" and q: "find (\<lambda>q. p_id q = i) (posts d) = Some q"
  shows "repliesCount_of d' i = Some (p_repliesCount q +
           (if truthy (in_inReplyToId inp) \<and> i = the (in_inReplyToId inp) then 1 else 0))"
    and "reblogsCount_of d' i = Some (p_reblogsCount q +
           (if truthy (in_reblogId inp) \<and> i = the (in_reblogId inp) then 1 else 0))"
proof -
  from com have "posts d' = map (bump inp) (posts d @ [new_post_row e inp])"
    by (simp add: committed_def)
  with find_old_post [OF find_list_ex [OF q], of inp "new_post_row e inp"] q
  have f: "find (\<lambda>q. p_id q = i) (posts d') = Some (bump inp q)"
    by simp
  from find_id [OF q] have i: "p_id q = i" .
  show "repliesCount_of d' i = Some (p_repliesCount q +
           (if truthy (in_inReplyToId inp) \<and> i = the (in_inReplyToId inp) then 1 else 0))"
    using f i by (simp add: repliesCount_of_def bump_def)
  show "reblogsCount_of d' i = Some (p_reblogsCount q +
           (if truthy (in_reblogId inp) \<and> i = the (in_reblogId inp) then 1 else 0))"
    using f i by (simp add: reblogsCount_of_def bump_def)
qed

text \<open>
  Claim C7. After a committed \<open>create\<close>: the reblog counter of the post named by
  \<open>reblogId\<close> is exactly one higher, and so is the reply counter of the post named by
  \<open>inReplyToId\<close> (identifiers of posts are never the empty string, which the handler
  treats as absent); the reblog counter of every post the \<open>reblogId\<close> does not name and
  the reply counter of every post the \<open>inReplyToId\<close> does not name are unchanged; and
  with no content in the input the new post is stored, and returned, with content
  null. Each increment is one \<open>update\<close> of the store with \<open>{ increment: 1 }\<close>, not a
  read followed by a write.
\<close>

theorem create_counter_maintenance:
  assumes "create e c inp d s3 = ((d', s3'), Inr r)"
  shows "(\<forall>t n. in_reblogId inp = Some t \<and> \<not> (t = []) \<and> reblogsCount_of d t = Some n \<longrightarrow>
            reblogsCount_of d' t = Some (n + 1)) \<and>
         (\<forall>t n. in_inReplyToId inp = Some t \<and> \<not> (t = []) \<and> repliesCount_of d t = Some n \<longrightarrow>
            repliesCount_of d' t = Some (n + 1)) \<and>
         (\<forall>i n. \<not> (in_reblogId inp = Some i) \<and> reblogsCount_of d i = Some n \<longrightarrow>
            reblogsCount_of d' i = Some n) \<and>
         (\<forall>i n. \<not> (in_inReplyToId inp = Some i) \<and> repliesCount_of d i = Some n \<longrightarrow>
            repliesCount_of d' i = Some n) \<and>
         (in_content inp = None \<longrightarrow>
            map_option p_content (find (\<lambda>q. p_id q = newPostId e) (posts d')) = Some None \<and>
            p_content (h_row (post_base (c_post r))) = None)"
proof -
  from create_ok [OF assms] have tx: "create_tx e c inp d s3 = (s3', Inr (d', r))"
    by simp
  from create_tx_ok [OF tx] have com: "committed e inp d d'"
    and fresh: "\<not> list_ex (\<lambda>q. p_id q = newPostId e) (posts d)"
    and r: "r = \<lparr>c_isReblogged = False, c_isFavorited = False,
              c_post = include_post d' (bump inp (new_post_row e inp))\<rparr>"
    by blast+
  have a: "reblogsCount_of d' t = Some (n + 1)"
    if "in_reblogId inp = Some t \<and> \<not> (t = []) \<and> reblogsCount_of d t = Some n" for t n
  proof -
    from that obtain q where q: "find (\<lambda>q. p_id q = t) (posts d) = Some q" "p_reblogsCount q = n"
      by (auto simp: reblogsCount_of_def)
    from counters_after(2) [OF com q(1)] that q(2) show ?thesis
      by (simp add: truthy_def)
  qed
  have b: "repliesCount_of d' t = Some (n + 1)"
    if "in_inReplyToId inp = Some t \<and> \<not> (t = []) \<and> repliesCount_of d t = Some n" for t n
  proof -
    from that obtain q where q: "find (\<lambda>q. p_id q = t) (posts d) = Some q" "p_repliesCount q = n"
      by (auto simp: repliesCount_of_def)
    from counters_after(1) [OF com q(1)] that q(2) show ?thesis
      by (simp add: truthy_def)
  qed
  have c: "reblogsCount_of d' i = Some n"
    if "\<not> (in_reblogId inp = Some i) \<and> reblogsCount_of d i = Some n" for i n
  proof -
    from that obtain q where q: "find (\<lambda>q. p_id q = i) (posts d) = Some q" "p_reblogsCount q = n"
      by (auto simp: reblogsCount_of_def)
    from counters_after(2) [OF com q(1)] that q(2) show ?thesis
      by (auto simp: truthy_def split: option.splits)
  qed
  have d: "repliesCount_of d' i = Some n"
    if "\<not> (in_inReplyToId inp = Some i) \<and> repliesCount_of d i = Some n" for i n
  proof -
    from that obtain q where q: "find (\<lambda>q. p_id q = i) (posts d) = Some q" "p_repliesCount q = n"
      by (auto simp: repliesCount_of_def)
    from counters_after(1) [OF com q(1)] that q(2) show ?thesis
      by (auto simp: truthy_def split: option.splits)
  qed
  have e: "map_option p_content (find (\<lambda>q. p_id q = newPostId e) (posts d')) = Some None \<and>
            p_content (h_row (post_base (c_post r))) = None"
    if "in_content inp = None"
  proof -
    from com have "posts d' = map (bump inp) (posts d @ [new_post_row e inp])"
      by (simp add: committed_def)
    moreover have "\<not> list_ex (\<lambda>q. p_id q = p_id (new_post_row e inp)) (posts d)"
      using fresh by (simp add: new_post_row_def)
    ultimately have "find (\<lambda>q. p_id q = newPostId e) (posts d') = Some (bump inp (new_post_row e inp))"
      using find_new_post [of "new_post_row e inp" "posts d" inp] by (simp add: new_post_row_def)
    moreover have "p_content (bump inp (new_post_row e inp)) = None"
      using that by (simp add: bump_def new_post_row_def)
    ultimately show ?thesis
      by (simp add: r include_post_def include_base_def)
  qed
  from a b c d e show ?thesis
    by blast
qed

lemmas create_eval =
  create_def create_schema_def create_object_schema_def create_refine_def truthy_def
  create_tx_def profile_findFirst_def post_create_def new_post_row_def create_counters_def
  increment_repliesCount_def increment_reblogsCount_def promote_def CopyObject_def
  DeleteObject_def GetObject_def upload_name_def invalid_file_def file_create_def file_data_def
  attachment_create_def new_attachment_def post_findUniqueOrThrow_def include_post_def
  include_base_def Let_def
  ex_env_eval ex_ctx_def ex_s3_def ex_probe_def ex_png_def ex_jpg_def ex_input_def
  ex_bad_input_def ex_reply_input_def ex_forbidden_input_def ex_upload_input_def ex_rows

lemma result_shape:
  "\<not> isl (snd X) \<Longrightarrow> X = ((fst (fst X), snd (fst X)), Inr (projr (snd X)))"
  by (cases X; cases "snd X") auto

lemma result_pair: "X = ((fst (fst X), snd (fst X)), snd X)"
  by simp

lemma ex_created_ok: "\<not> isl (snd ex_created)"
  by (simp add: ex_created_def create_eval)

lemma ex_replied_ok: "\<not> isl (snd ex_replied)"
  by (simp add: ex_replied_def create_eval)

lemma ex_rejected_error: "snd ex_rejected = Inl BAD_REQUEST"
  by (simp add: ex_rejected_def create_eval)

theorem create_commits_or_rolls_back_witness:
  "\<not> isl (snd ex_created) \<and> committed ex_env ex_input ex_db (fst (fst ex_created)) \<and>
   snd ex_rejected = Inl BAD_REQUEST \<and> fst (fst ex_rejected) = ex_db \<and>
   create_schema ex_forbidden_input \<and>
   profile_findFirst ex_db (in_profileId ex_forbidden_input) (session_user_id ex_ctx) = None \<and>
   create ex_env ex_ctx ex_forbidden_input ex_db ex_s3 = ((ex_db, ex_s3), Inl FORBIDDEN)"
proof -
  have a: "create ex_env ex_ctx ex_input ex_db ex_s3 =
      ((fst (fst ex_created), snd (fst ex_created)), snd ex_created)"
    by (simp add: ex_created_def)
  from create_commits_or_rolls_back [OF a] ex_created_ok
  have c1: "committed ex_env ex_input ex_db (fst (fst ex_created))"
    by auto
  have b: "create ex_env ex_ctx ex_bad_input ex_db ex_s3 =
      ((fst (fst ex_rejected), snd (fst ex_rejected)), snd ex_rejected)"
    by (simp add: ex_rejected_def)
  from create_commits_or_rolls_back [OF b] ex_rejected_error
  have c2: "fst (fst ex_rejected) = ex_db"
    by auto
  let ?X = "create ex_env ex_ctx ex_forbidden_input ex_db ex_s3"
  have h: "create_schema ex_forbidden_input"
    "profile_findFirst ex_db (in_profileId ex_forbidden_input) (session_user_id ex_ctx) = None"
    by (simp_all add: create_schema_def create_object_schema_def create_refine_def truthy_def
        profile_findFirst_def ex_forbidden_input_def ex_input_def ex_ctx_def ex_rows)
  from create_commits_or_rolls_back [OF result_pair [of ?X]] h
  have "snd ?X = Inl FORBIDDEN \<and> fst (fst ?X) = ex_db \<and> snd (fst ?X) = ex_s3"
    by blast
  then have c3: "?X = ((ex_db, ex_s3), Inl FORBIDDEN)"
    by (metis prod.collapse)
  from c1 c2 c3 h ex_created_ok ex_rejected_error show ?thesis
    by simp
qed

theorem create_counter_maintenance_witness:
  "reblogsCount_of ex_db ''p1'' = Some 1 \<and>
   reblogsCount_of (fst (fst ex_created)) ''p1'' = Some 2 \<and>
   repliesCount_of ex_db ''p1'' = Some 1 \<and>
   repliesCount_of (fst (fst ex_created)) ''p1'' = Some 1 \<and>
   repliesCount_of (fst (fst ex_replied)) ''p1'' = Some 2 \<and>
   reblogsCount_of ex_db ''p2'' = Some 0 \<and>
   reblogsCount_of (fst (fst ex_created)) ''p2'' = Some 0 \<and>
   map_option p_content (find (\<lambda>q. p_id q = newPostId ex_env) (posts (fst (fst ex_created))))
     = Some None"
proof -
  have a: "create ex_env ex_ctx ex_input ex_db ex_s3 =
      ((fst (fst ex_created), snd (fst ex_created)), Inr (projr (snd ex_created)))"
    using result_shape [OF ex_created_ok] by (simp add: ex_created_def)
  have b: "create ex_env ex_ctx ex_reply_input ex_db ex_s3 =
      ((fst (fst ex_replied), snd (fst ex_replied)), Inr (projr (snd ex_replied)))"
    using result_shape [OF ex_replied_ok] by (simp add: ex_replied_def)
  note A = create_counter_maintenance [OF a]
  note B = create_counter_maintenance [OF b]
  have i: "in_reblogId ex_input = Some ''p1''" "\<not> (''p1'' = [])" "in_content ex_input = None"
    "\<not> (in_inReplyToId ex_input = Some ''p1'')" "\<not> (in_reblogId ex_input = Some ''p2'')"
    "in_inReplyToId ex_reply_input = Some ''p1''"
    by (simp_all add: ex_input_def ex_reply_input_def)
  have n: "reblogsCount_of ex_db ''p1'' = Some 1" "repliesCount_of ex_db ''p1'' = Some 1"
    "reblogsCount_of ex_db ''p2'' = Some 0"
    by (simp_all add: reblogsCount_of_def repliesCount_of_def ex_rows)
  from A i n have "reblogsCount_of (fst (fst ex_created)) ''p1'' = Some (1 + 1)"
    by blast
  moreover from A i n have "repliesCount_of (fst (fst ex_created)) ''p1'' = Some 1"
    by blast
  moreover from B i n have "repliesCount_of (fst (fst ex_replied)) ''p1'' = Some (1 + 1)"
    by blast
  moreover from A i n have "reblogsCount_of (fst (fst ex_created)) ''p2'' = Some 0"
    by blast
  moreover from A i have "map_option p_content
      (find (\<lambda>q. p_id q = newPostId ex_env) (posts (fst (fst ex_created)))) = Some None"
    by blast
  ultimately show ?thesis
    using n by simp
qed


lemma promote_all_rows:
  assumes "promote_all e pid i us d s3 = (s3', Inr d')"
  shows "\<exists>new. files d' = files d @ new \<and> length new = length us \<and>
           length (fetched_objects e i us s3) = length us \<and>
           (\<forall>k < length us.
              \<exists>ft. probe e (Body (fetched_objects e i us s3 ! k)) = Probe_returns (Some ft) \<and>
                   new ! k = file_data e (i + k) (us ! k) (upload_name e (i + k) (us ! k))
                               (the (ContentLength (fetched_objects e i us s3 ! k))) ft)"
  using assms
proof (induction us arbitrary: i d s3)
  case Nil
  then show ?case by simp
next
  case (Cons u us)
  from Cons.prems obtain s3m dm where
    one: "promote e pid i u d s3 = (s3m, Inr dm)"
    and rest: "promote_all e pid (Suc i) us dm s3m = (s3', Inr d')"
    by (auto split: prod.splits sum.splits)
  from promote_ok [OF one] obtain object ft where
    fe: "fetched e i u s3 = Some (s3m, object)"
    and pr: "probe e (Body object) = Probe_returns (Some ft)"
    and dm: "dm = d\<lparr>files := files d @ [file_data e i u (upload_name e i u)
                                         (the (ContentLength object)) ft],
                  attachments := attachments d @ [new_attachment e pid i]\<rparr>"
    by blast
  let ?f0 = "file_data e i u (upload_name e i u) (the (ContentLength object)) ft"
  let ?obs = "fetched_objects e (Suc i) us s3m"
  from Cons.IH [OF rest] obtain new where
    fl: "files d' = files dm @ new"
    and ln: "length new = length us"
    and lo: "length ?obs = length us"
    and rows: "\<forall>k < length us.
              \<exists>ft. probe e (Body (?obs ! k)) = Probe_returns (Some ft) \<and>
                   new ! k = file_data e (Suc i + k) (us ! k) (upload_name e (Suc i + k) (us ! k))
                               (the (ContentLength (?obs ! k))) ft"
    by blast
  have obs: "fetched_objects e i (u # us) s3 = object # ?obs"
    using fe by simp
  have a: "files d' = files d @ (?f0 # new)"
    using fl dm by simp
  have b: "length (?f0 # new) = length (u # us)"
    using ln by simp
  have c: "length (fetched_objects e i (u # us) s3) = length (u # us)"
    using lo obs by simp
  have e: "\<exists>ft. probe e (Body (fetched_objects e i (u # us) s3 ! k)) = Probe_returns (Some ft) \<and>
                   (?f0 # new) ! k =
                     file_data e (i + k) ((u # us) ! k) (upload_name e (i + k) ((u # us) ! k))
                       (the (ContentLength (fetched_objects e i (u # us) s3 ! k))) ft"
    if k: "k < length (u # us)" for k
  proof (cases k)
    case 0
    with pr obs show ?thesis
      by simp
  next
    case (Suc j)
    with k have "j < length us"
      by simp
    with rows have "\<exists>ft. probe e (Body (?obs ! j)) = Probe_returns (Some ft) \<and>
                   new ! j = file_data e (Suc i + j) (us ! j) (upload_name e (Suc i + j) (us ! j))
                               (the (ContentLength (?obs ! j))) ft"
      by blast
    with Suc obs show ?thesis
      by simp
  qed
  from a b c e show ?case
    by blast
qed

lemma create_tx_steps:
  assumes "create_tx e c inp d s3 = (s3', Inr (d', r))"
  shows "\<exists>d3. files d3 = files d \<and>
           promote_all e (newPostId e) 0 (uploads inp) d3 s3 = (s3', Inr d')"
proof -
  from assms obtain d1 d3 where
    ins: "post_create (new_post_row e inp) d = Inr d1"
    and cnt: "create_counters inp d1 = Inr d3"
    and fls: "(case in_files inp of None \<Rightarrow> (s3, Inr d3)
               | Some fs \<Rightarrow> promote_all e (newPostId e) 0 fs d3 s3) = (s3', Inr d')"
    unfolding create_tx_def Let_def
    by (auto split: if_splits sum.splits prod.splits)
  from ins have "files d1 = files d"
    by (auto simp: post_create_def split: if_splits)
  with create_counters_ok [OF cnt] have "files d3 = files d"
    by simp
  moreover from fls have "promote_all e (newPostId e) 0 (uploads inp) d3 s3 = (s3', Inr d')"
    by (simp add: uploads_def split: option.splits)
  ultimately show ?thesis
    by blast
qed

text \<open>
  Claim C6. A committed \<open>create\<close> adds exactly one File row per upload, the \<open>k\<close>-th new
  row being the row of the \<open>k\<close>-th upload. For each upload the object was fetched and
  the probe returned a result for its body, and the row stores as \<open>width\<close> the height
  of that very result and as \<open>height\<close> its width.
\<close>

theorem create_file_dimensions_swapped:
  assumes "create e c inp d s3 = ((d', s3'), Inr r)"
  shows "length (files d') = length (files d) + length (uploads inp) \<and>
         length (fetched_objects e 0 (uploads inp) s3) = length (uploads inp) \<and>
         (\<forall>k < length (uploads inp).
            \<exists>ft. probe e (Body (fetched_objects e 0 (uploads inp) s3 ! k))
                   = Probe_returns (Some ft) \<and>
                 f_id (files d' ! (length (files d) + k)) = newFileId e k \<and>
                 f_width (files d' ! (length (files d) + k)) = probe_height ft \<and>
                 f_height (files d' ! (length (files d) + k)) = probe_width ft)"
proof -
  let ?obs = "fetched_objects e 0 (uploads inp) s3"
  from create_ok [OF assms] have tx: "create_tx e c inp d s3 = (s3', Inr (d', r))"
    by simp
  from create_tx_steps [OF tx] obtain d3 where d3: "files d3 = files d"
    and pa: "promote_all e (newPostId e) 0 (uploads inp) d3 s3 = (s3', Inr d')"
    by blast
  from promote_all_rows [OF pa] d3 obtain new where
    fl: "files d' = files d @ new"
    and ln: "length new = length (uploads inp)"
    and lo: "length ?obs = length (uploads inp)"
    and rows: "\<forall>k < length (uploads inp).
              \<exists>ft. probe e (Body (?obs ! k)) = Probe_returns (Some ft) \<and>
                   new ! k = file_data e (0 + k) (uploads inp ! k)
                               (upload_name e (0 + k) (uploads inp ! k))
                               (the (ContentLength (?obs ! k))) ft"
    by auto
  have "\<exists>ft. probe e (Body (?obs ! k)) = Probe_returns (Some ft) \<and>
                 f_id (files d' ! (length (files d) + k)) = newFileId e k \<and>
                 f_width (files d' ! (length (files d) + k)) = probe_height ft \<and>
                 f_height (files d' ! (length (files d) + k)) = probe_width ft"
    if k: "k < length (uploads inp)" for k
  proof -
    from rows k obtain ft where pr: "probe e (Body (?obs ! k)) = Probe_returns (Some ft)"
      and row: "new ! k = file_data e (0 + k) (uploads inp ! k)
                               (upload_name e (0 + k) (uploads inp ! k))
                               (the (ContentLength (?obs ! k))) ft"
      by blast
    have "files d' ! (length (files d) + k) = new ! k"
      using fl by simp
    with row pr show ?thesis
      by (simp add: file_data_def)
  qed
  moreover have "length (files d') = length (files d) + length (uploads inp)"
    using fl ln by simp
  ultimately show ?thesis
    using lo by blast
qed

theorem create_file_dimensions_swapped_witness:
  "length (files (fst (fst ex_created))) = 2 \<and>
   fetched_objects ex_env 0 (uploads ex_input) ex_s3 ! 0
     = \<lparr>ContentLength = Some 7, Body = ''PNGDATA''\<rparr> \<and>
   probe ex_env ''PNGDATA'' = Probe_returns (Some ex_png) \<and>
   probe_width ex_png = 640 \<and> probe_height ex_png = 480 \<and>
   f_id (files (fst (fst ex_created)) ! 1) = ''f'' \<and>
   f_width (files (fst (fst ex_created)) ! 1) = 480 \<and>
   f_height (files (fst (fst ex_created)) ! 1) = 640"
proof -
  have a: "create ex_env ex_ctx ex_input ex_db ex_s3 =
      ((fst (fst ex_created), snd (fst ex_created)), Inr (projr (snd ex_created)))"
    using result_shape [OF ex_created_ok] by (simp add: ex_created_def)
  note T = create_file_dimensions_swapped [OF a]
  have u: "length (uploads ex_input) = 1" "length (files ex_db) = 1"
    by (simp_all add: uploads_def ex_input_def ex_db_def)
  have o: "fetched_objects ex_env 0 (uploads ex_input) ex_s3 ! 0
      = \<lparr>ContentLength = Some 7, Body = ''PNGDATA''\<rparr>"
    by (simp add: uploads_def ex_input_def fetched_def CopyObject_def DeleteObject_def
        GetObject_def upload_name_def Let_def ex_env_eval ex_s3_def)
  have p: "probe ex_env ''PNGDATA'' = Probe_returns (Some ex_png)"
    by (simp add: ex_env_def ex_probe_def)
  from T u have l: "length (files (fst (fst ex_created))) = 2"
    by simp
  have "(0::nat) < length (uploads ex_input)"
    using u by simp
  with T obtain ft where
    "probe ex_env (Body (fetched_objects ex_env 0 (uploads ex_input) ex_s3 ! 0))
       = Probe_returns (Some ft)"
    and i: "f_id (files (fst (fst ex_created)) ! (length (files ex_db) + 0)) = newFileId ex_env 0"
    and w: "f_width (files (fst (fst ex_created)) ! (length (files ex_db) + 0)) = probe_height ft"
    and h: "f_height (files (fst (fst ex_created)) ! (length (files ex_db) + 0)) = probe_width ft"
    by blast
  with o p have ft: "ft = ex_png"
    by simp
  from i w h ft u have "f_id (files (fst (fst ex_created)) ! 1) = ''f''"
    "f_width (files (fst (fst ex_created)) ! 1) = 480"
    "f_height (files (fst (fst ex_created)) ! 1) = 640"
    by (simp_all add: ex_png_def ex_env_def)
  with l o p show ?thesis
    by (simp add: ex_png_def)
qed






end
